theory Spec2Isabelle
  imports Main "HOL-Library.Word"
begin

section \<open>Data model of wrap.go\<close>

text \<open>
  Go's \<^verbatim>\<open>error\<close> values are kept as their message, a panic as the value it was
  raised with. A \<^verbatim>\<open>float64\<close> is only ever copied by the wrapper, so it is kept as its
  64-bit pattern (the zero value is the pattern 0); \<^verbatim>\<open>uint64\<close> is a 64-bit word and
  \<^verbatim>\<open>time.Time\<close> a count of nanoseconds.
\<close>

type_synonym error = string
type_synonym float64 = "64 word"
type_synonym uint64 = "64 word"
type_synonym time = int
type_synonym bytes = "8 word list"

datatype panic = Panic string

text \<open>The decoded form of a JSON text, as \<^verbatim>\<open>json.Unmarshal\<close> stores it in an
  \<^verbatim>\<open>interface{}\<close>.\<close>

datatype json =
    JNull
  | JBool bool
  | JNumber float64
  | JString string
  | JArray "json list"
  | JObject "(string \<times> json) list"

record System =
  CPUPercent :: float64
  MemPercent :: float64
  Inbound :: uint64
  Outbound :: uint64

record Event =
  E_CheckSum :: string
  E_UUID :: string
  E_Time :: time
  E_Status :: int
  E_Signal :: string
  E_SystemMetrics :: System

record Profile =
  P_CheckSum :: string
  P_UUID :: string
  P_Profile :: json

text \<open>
  An \<^verbatim>\<open>Object\<close> on the channel is a \<^verbatim>\<open>*Event\<close> or a \<^verbatim>\<open>*Profile\<close>. The
  \<^verbatim>\<open>*Event\<close> may be nil (\<^verbatim>\<open>event\<close> returns nil when the process state is not a
  wait status); a \<^verbatim>\<open>*Profile\<close> is always the address of a fresh variable.
\<close>

datatype Object = EventPtr "Event option" | ProfilePtr Profile

fun is_event :: "Object \<Rightarrow> bool" where
  "is_event (EventPtr e) = True"
| "is_event (ProfilePtr p) = False"

fun is_profile :: "Object \<Rightarrow> bool" where
  "is_profile (EventPtr e) = False"
| "is_profile (ProfilePtr p) = True"

fun obj_CheckSum :: "Object \<Rightarrow> string option" where
  "obj_CheckSum (EventPtr None) = None"
| "obj_CheckSum (EventPtr (Some e)) = Some (E_CheckSum e)"
| "obj_CheckSum (ProfilePtr p) = Some (P_CheckSum p)"

text \<open>The global \<^verbatim>\<open>envar\<close>: indexing a Go map at a missing key gives the empty string.\<close>

definition envar_get :: "(string \<rightharpoonup> string) \<Rightarrow> string \<Rightarrow> string" where
  "envar_get envar k = (case envar k of None \<Rightarrow> [] | Some v \<Rightarrow> v)"

text \<open>\<^verbatim>\<open>topic\<close> has a value receiver: called through a nil \<^verbatim>\<open>*Event\<close> it panics
  (\<open>None\<close>).\<close>

fun topic :: "(string \<rightharpoonup> string) \<Rightarrow> Object \<Rightarrow> string option" where
  "topic envar (EventPtr None) = None"
| "topic envar (EventPtr (Some e)) = Some (envar_get envar ''EVENT_TOPIC'')"
| "topic envar (ProfilePtr p) = Some (envar_get envar ''PROF_TOPIC'')"

text \<open>
  \<^verbatim>\<open>brand\<close> writes a fresh UUID (the result \<open>u\<close> of \<^verbatim>\<open>uuid.NewV4().String()\<close>) and the
  global \<^verbatim>\<open>cksum\<close> into the object; on a nil \<^verbatim>\<open>*Event\<close> the field write panics
  (\<open>None\<close>).
\<close>

fun brand :: "string \<Rightarrow> string \<Rightarrow> Object \<Rightarrow> Object option" where
  "brand ck u (EventPtr None) = None"
| "brand ck u (EventPtr (Some e)) = Some (EventPtr (Some (e\<lparr>E_UUID := u, E_CheckSum := ck\<rparr>)))"
| "brand ck u (ProfilePtr p) = Some (ProfilePtr (p\<lparr>P_UUID := u, P_CheckSum := ck\<rparr>))"

subsection \<open>The child's termination and \<^verbatim>\<open>event\<close>\<close>

text \<open>
  A \<^verbatim>\<open>syscall.WaitStatus\<close> is read by \<^verbatim>\<open>event\<close> only through its methods
  \<^verbatim>\<open>ExitStatus()\<close>, \<^verbatim>\<open>Signaled()\<close> and \<^verbatim>\<open>Signal().String()\<close>; the record holds
  what they return. \<^verbatim>\<open>ProcessState.Sys()\<close> returns an \<^verbatim>\<open>interface{}\<close>, whose dynamic
  type \<^verbatim>\<open>event\<close> tests.
\<close>

record WaitStatus =
  ExitStatus :: int
  Signaled :: bool
  Signal_String :: string

datatype sys = SysWaitStatus WaitStatus | SysOther

record ProcessState =
  status :: WaitStatus

text \<open>\<^verbatim>\<open>os.ProcessState.Sys\<close>: on a system that has the type \<^verbatim>\<open>syscall.WaitStatus\<close> the
  method returns the wait status the state holds.\<close>

definition Sys :: "ProcessState \<Rightarrow> sys" where
  "Sys state = SysWaitStatus (status state)"

text \<open>What the metric libraries and the clock answer when \<^verbatim>\<open>event\<close> calls them:
  \<^verbatim>\<open>cpu.Percent(0, false)\<close>, the \<^verbatim>\<open>UsedPercent\<close> of \<^verbatim>\<open>mem.VirtualMemory()\<close>, the
  \<^verbatim>\<open>(BytesRecv, BytesSent)\<close> of each counter of \<^verbatim>\<open>hnet.IOCounters(false)\<close>, and
  \<^verbatim>\<open>time.Now()\<close>.\<close>

record sampling =
  cpu_Percent :: "error + float64 list"
  mem_VirtualMemory :: "error + float64"
  net_IOCounters :: "error + (uint64 \<times> uint64) list"
  time_Now :: time

text \<open>Indexing a slice at 0: a run-time panic when the slice is empty.\<close>

definition index0 :: "'a list \<Rightarrow> panic + 'a" where
  "index0 xs = (case xs of [] \<Rightarrow> Inl (Panic ''index out of range'') | x # _ \<Rightarrow> Inr x)"

definition event :: "sampling \<Rightarrow> ProcessState \<Rightarrow> panic + Event option" where
  "event smp state =
     (case Sys state of
        SysOther \<Rightarrow> Inr None
      | SysWaitStatus ws \<Rightarrow>
          (case (case cpu_Percent smp of Inl err \<Rightarrow> Inr 0 | Inr tempCPU \<Rightarrow> index0 tempCPU) of
             Inl p \<Rightarrow> Inl p
           | Inr cpuPercent \<Rightarrow>
               (let memPercent = (case mem_VirtualMemory smp of Inl err \<Rightarrow> 0 | Inr used \<Rightarrow> used) in
                (case (case net_IOCounters smp of
                         Inl err \<Rightarrow> Inr (0, 0)
                       | Inr tempNet \<Rightarrow> index0 tempNet) of
                   Inl p \<Rightarrow> Inl p
                 | Inr (inbound, outbound) \<Rightarrow>
                     Inr (Some \<lparr>E_CheckSum = [], E_UUID = [], E_Time = time_Now smp,
                                E_Status = ExitStatus ws,
                                E_Signal = (if Signaled ws then Signal_String ws else []),
                                E_SystemMetrics =
                                  \<lparr>CPUPercent = cpuPercent, MemPercent = memPercent,
                                   Inbound = inbound, Outbound = outbound\<rparr>\<rparr>)))))"

subsection \<open>\<^verbatim>\<open>checksum\<close> and \<^verbatim>\<open>valid\<close>\<close>

text \<open>What \<^verbatim>\<open>os.Open\<close> and \<^verbatim>\<open>io.Copy\<close> meet at a path.\<close>

datatype file_read = OpenError error | CopyError error | Contents bytes

definition hex_digit :: "nat \<Rightarrow> char" where
  "hex_digit n = ''0123456789abcdef'' ! (n mod 16)"

definition hex_byte :: "8 word \<Rightarrow> string" where
  "hex_byte b = [hex_digit (unat b div 16), hex_digit (unat b mod 16)]"

text \<open>\<^verbatim>\<open>checksum\<close>: the hash function \<^verbatim>\<open>sha512.New512_224\<close> is the parameter \<open>h\<close>,
  \<^verbatim>\<open>fmt.Sprintf("%x", hash)\<close> prints each byte as two lower-case hex digits.\<close>

definition checksum :: "(string \<Rightarrow> file_read) \<Rightarrow> (bytes \<Rightarrow> bytes) \<Rightarrow> string \<Rightarrow> panic + string" where
  "checksum fs h path =
     (case fs path of
        OpenError err \<Rightarrow> Inl (Panic err)
      | CopyError err \<Rightarrow> Inl (Panic err)
      | Contents f \<Rightarrow> Inr (concat (map hex_byte (h f))))"

record response =
  StatusCode :: int
  Status :: string

text \<open>\<^verbatim>\<open>valid\<close>: \<open>get\<close> is \<^verbatim>\<open>http.Get\<close>, from the URL to the error or the response
  (the parameter \<^verbatim>\<open>sum\<close> of the source is \<open>digest\<close> here).\<close>

definition valid :: "(string \<rightharpoonup> string) \<Rightarrow> (string \<Rightarrow> error + response) \<Rightarrow> string \<Rightarrow> panic + bool" where
  "valid envar get digest =
     (let ep = envar_get envar ''BASE_URL'' @ ''/check_releases/'' @ digest in
      case get ep of
        Inl err \<Rightarrow> Inl (Panic err)
      | Inr resp \<Rightarrow>
          (if StatusCode resp = 200 then Inr True
           else if StatusCode resp = 404 then Inr False
           else Inl (Panic (''wrapper: valid: got unexpected status '' @ Status resp))))"

text \<open>The lines the wrapper writes with the \<^verbatim>\<open>log\<close> package, and the bytes the log
  listener copies to the same sink.\<close>

datatype log_entry =
    Print string
  | PrintErr error
  | PrintSignal nat
  | PrintGot nat string
  | Tee string

text \<open>
  \<^verbatim>\<open>main\<close>, lines 408 to 412: the digest of the executable is assigned to the global
  \<^verbatim>\<open>cksum\<close> and looked up; a digest that is not recognised is logged and \<^verbatim>\<open>main\<close> goes
  on. The result is the panic that ends \<^verbatim>\<open>main\<close>, or the value of \<^verbatim>\<open>cksum\<close> and the lines
  logged with which \<^verbatim>\<open>main\<close> goes on to start the pipeline.
\<close>

definition main_check ::
  "(string \<Rightarrow> file_read) \<Rightarrow> (bytes \<Rightarrow> bytes) \<Rightarrow> (string \<rightharpoonup> string) \<Rightarrow> (string \<Rightarrow> error + response)
     \<Rightarrow> string \<Rightarrow> panic + string \<times> log_entry list" where
  "main_check fs h envar get path =
     (case checksum fs h path of
        Inl p \<Rightarrow> Inl p
      | Inr cksum \<Rightarrow>
          (case valid envar get cksum of
             Inl p \<Rightarrow> Inl p
           | Inr ok \<Rightarrow> Inr (cksum, if ok then [] else [Print (''invalid checksum: '' @ cksum)])))"


section \<open>The pipeline: goroutines, channels and their steps\<close>

text \<open>
  What the run's libraries compute: the configuration map \<^verbatim>\<open>envar\<close>, \<^verbatim>\<open>json.Unmarshal\<close>
  into an \<^verbatim>\<open>interface{}\<close>, and \<^verbatim>\<open>json.Marshal\<close> of an object.
\<close>

record env =
  env_envar :: "string \<rightharpoonup> string"
  json_Unmarshal :: "string \<Rightarrow> error + json"
  json_Marshal :: "Object \<Rightarrow> error + string"

record ProducerMessage =
  Topic :: string
  Value :: string

text \<open>What one call of \<^verbatim>\<open>line.Scan()\<close> gives: a token (a line without its end), or
  \<^verbatim>\<open>false\<close>, at the end of the input (\<open>None\<close>) or on the scanner's error (a failed read, or
  \<^verbatim>\<open>bufio.ErrTooLong\<close> for a line over the maximal token size).\<close>

datatype scan = Token string | ScanEnd "error option"

text \<open>
  Where each goroutine stands. \<^verbatim>\<open>main\<close>: in the loop of \<^verbatim>\<open>run\<close>, at \<^verbatim>\<open>close(obj)\<close>, and
  in the deferred close handles \<^verbatim>\<open>lc\<close>, \<^verbatim>\<open>wrelay\<close>, \<^verbatim>\<open>wprod\<close>, in this order. The goroutine
  of \<^verbatim>\<open>run\<close>: in \<^verbatim>\<open>cmd.Wait()\<close>, blocked in \<^verbatim>\<open>obj <- event(...)\<close>, blocked in
  \<^verbatim>\<open>done <- struct{}{}\<close>, ended. The goroutine of \<^verbatim>\<open>relay\<close>: in \<^verbatim>\<open>s.Accept()\<close>, blocked in
  \<^verbatim>\<open>done <- err\<close> after a failed accept, at \<^verbatim>\<open>line.Scan()\<close> (with a connection or with
  the nil one of a failed accept), blocked in \<^verbatim>\<open>obj <- &p\<close>, blocked in the last
  \<^verbatim>\<open>done <- err\<close> or \<^verbatim>\<open>done <- nil\<close>, ended. The goroutine of \<^verbatim>\<open>produce\<close>: blocked in the
  receive of \<^verbatim>\<open>range obj\<close>, holding a received object, blocked in \<^verbatim>\<open>done <- err\<close> or
  \<^verbatim>\<open>done <- nil\<close>, ended. The goroutine of \<^verbatim>\<open>logs\<close>: like that of \<^verbatim>\<open>relay\<close>, with
  \<^verbatim>\<open>ioutil.ReadAll\<close> for the scan.
\<close>

datatype main_pc = M_Run | M_Close | M_Lc | M_Wrelay | M_Wprod | M_Exit
datatype sup_pc = W_Wait | W_Send "Event option" | W_Done | W_End
datatype lst_pc = L_Accept | L_AcceptErr error | L_Scan bool | L_Send Profile
  | L_Done "error option" | L_End
datatype rel_pc = P_Recv | P_Got Object | P_Done "error option" | P_End
datatype lgs_pc = G_Accept | G_AcceptErr error | G_Read bool | G_Done "error option" | G_End

text \<open>
  The state of a run: the global \<^verbatim>\<open>cksum\<close>, the goroutines, whether \<^verbatim>\<open>obj\<close> is closed,
  whether a goroutine has panicked (which ends the process), and what the run has done so
  far: the state \<^verbatim>\<open>cmd.Wait()\<close> returned once the child has terminated, the signals
  \<^verbatim>\<open>cmd.Process.Signal\<close> passed to the living child, the objects received from \<^verbatim>\<open>obj\<close> in
  the order of their receipt (\<^verbatim>\<open>obj\<close> has no buffer: a send completes when the
  receiver takes the object), the objects \<^verbatim>\<open>SendMessage\<close> delivered, each with its
  message, the tokens scanned from the data connection, and the log.
\<close>

record state =
  cksum :: string
  mainpc :: main_pc
  sup :: sup_pc
  lst :: lst_pc
  rel :: rel_pc
  lgs :: lgs_pc
  obj_closed :: bool
  panicked :: bool
  child :: "ProcessState option"
  child_signals :: "nat list"
  enq :: "Object list"
  sent :: "(Object \<times> ProducerMessage) list"
  scanned :: "string list"
  logged :: "log_entry list"

text \<open>
  The steps of a run. Each names what the world outside the wrapper decides: the state the
  child ends in and the samples \<^verbatim>\<open>event\<close> takes, the signal that arrives, the outcome of
  an accept, of a scan and of the log connection's read, the UUID drawn and the outcome of
  \<^verbatim>\<open>SendMessage\<close>. \<open>SendEvent\<close> and \<open>SendProfile\<close> are the two goroutines of a send on
  \<^verbatim>\<open>obj\<close> meeting, \<open>RunDone\<close>, \<open>Lc\<close>, \<open>Wrelay\<close> and \<open>Wprod\<close> those of a send on a
  \<^verbatim>\<open>done\<close> channel, \<open>RangeEnd\<close> is \<^verbatim>\<open>range obj\<close> finding the channel closed.
\<close>

datatype action =
    Wait ProcessState sampling
  | SendEvent
  | RunDone
  | Interrupt nat
  | Close
  | DataAccept "error option"
  | Scan scan
  | SendProfile
  | Deliver string "error option"
  | RangeEnd
  | LogsAccept "error option"
  | LogsRead string "error option"
  | Lc
  | Wrelay
  | Wprod

definition SIGINT :: nat where
  "SIGINT = 2"

definition profile_of :: "json \<Rightarrow> Profile" where
  "profile_of v = \<lparr>P_CheckSum = [], P_UUID = [], P_Profile = v\<rparr>"

text \<open>A close handle's \<^verbatim>\<open>if err := <-done; err != nil { log.Print(err) }\<close>.\<close>

definition report :: "error option \<Rightarrow> log_entry list" where
  "report err = (case err of None \<Rightarrow> [] | Some e \<Rightarrow> [PrintErr e])"

text \<open>A goroutine blocked in a send on \<^verbatim>\<open>obj\<close>: it panics when the channel is closed.\<close>

definition sender_blocked :: "state \<Rightarrow> bool" where
  "sender_blocked s =
     ((case sup s of W_Send e \<Rightarrow> True | _ \<Rightarrow> False) \<or> (case lst s of L_Send p \<Rightarrow> True | _ \<Rightarrow> False))"

text \<open>\<^verbatim>\<open>run\<close>, the goroutine of lines 162 to 166: \<^verbatim>\<open>cmd.Wait()\<close> returns, \<^verbatim>\<open>event\<close> is
  evaluated and the send on \<^verbatim>\<open>obj\<close> begins.\<close>

definition do_Wait :: "ProcessState \<Rightarrow> sampling \<Rightarrow> state \<Rightarrow> state option" where
  "do_Wait ps smp s =
     (case sup s of
        W_Wait \<Rightarrow>
          (case event smp ps of
             Inl p \<Rightarrow> Some (s\<lparr>child := Some ps, panicked := True\<rparr>)
           | Inr e \<Rightarrow>
               (let lg = (case e of
                            None \<Rightarrow> [Print ''expected type syscall.WaitStatus; non-POSIX system?'']
                          | Some ev \<Rightarrow> []) in
                if obj_closed s
                then Some (s\<lparr>child := Some ps, logged := logged s @ lg, panicked := True\<rparr>)
                else Some (s\<lparr>child := Some ps, logged := logged s @ lg, sup := W_Send e\<rparr>)))
      | _ \<Rightarrow> None)"

definition do_SendEvent :: "state \<Rightarrow> state option" where
  "do_SendEvent s =
     (case sup s of
        W_Send e \<Rightarrow>
          (if rel s = P_Recv \<and> \<not> obj_closed s
           then Some (s\<lparr>sup := W_Done, rel := P_Got (EventPtr e), enq := enq s @ [EventPtr e]\<rparr>)
           else None)
      | _ \<Rightarrow> None)"

text \<open>\<^verbatim>\<open>run\<close>, the \<^verbatim>\<open>select\<close> of lines 168 to 177.\<close>

definition do_RunDone :: "state \<Rightarrow> state option" where
  "do_RunDone s =
     (if sup s = W_Done \<and> mainpc s = M_Run
      then Some (s\<lparr>sup := W_End, mainpc := M_Close, logged := logged s @ [Print ''child exited'']\<rparr>)
      else None)"

text \<open>\<^verbatim>\<open>signal.Notify(sig, syscall.SIGINT)\<close>: only an interrupt arrives on \<^verbatim>\<open>sig\<close>.
  \<^verbatim>\<open>cmd.Process.Signal\<close> reaches the child while it lives; after \<^verbatim>\<open>cmd.Wait()\<close> has
  returned it gives an error, which \<^verbatim>\<open>run\<close> drops.\<close>

definition do_Interrupt :: "nat \<Rightarrow> state \<Rightarrow> state option" where
  "do_Interrupt sg s =
     (if mainpc s = M_Run \<and> sg = SIGINT
      then Some (s\<lparr>logged := logged s @ [PrintSignal sg],
                   child_signals := (if child s = None then child_signals s @ [sg]
                                     else child_signals s)\<rparr>)
      else None)"

text \<open>\<^verbatim>\<open>main\<close>, line 429.\<close>

definition do_Close :: "state \<Rightarrow> state option" where
  "do_Close s =
     (if mainpc s = M_Close
      then Some (s\<lparr>mainpc := M_Lc, obj_closed := True, panicked := sender_blocked s\<rparr>)
      else None)"

text \<open>\<^verbatim>\<open>relay\<close>, the goroutine of lines 235 to 255.\<close>

definition do_DataAccept :: "error option \<Rightarrow> state \<Rightarrow> state option" where
  "do_DataAccept r s =
     (case lst s of
        L_Accept \<Rightarrow>
          (case r of
             Some err \<Rightarrow> Some (s\<lparr>lst := L_AcceptErr err\<rparr>)
           | None \<Rightarrow>
               Some (s\<lparr>lst := L_Scan True, logged := logged s @ [Print ''data connection accepted'']\<rparr>))
      | _ \<Rightarrow> None)"

definition do_Scan :: "env \<Rightarrow> scan \<Rightarrow> state \<Rightarrow> state option" where
  "do_Scan env r s =
     (case lst s of
        L_Scan conn \<Rightarrow>
          (if \<not> conn
           then Some (s\<lparr>logged := logged s @ [Print ''data connection accepted''], panicked := True\<rparr>)
           else
             (case r of
                ScanEnd err \<Rightarrow>
                  Some (s\<lparr>lst := L_Done None, logged := logged s @ [Print ''data socket EOF'']\<rparr>)
              | Token line \<Rightarrow>
                  (case json_Unmarshal env line of
                     Inl err \<Rightarrow> Some (s\<lparr>scanned := scanned s @ [line], lst := L_Done (Some err)\<rparr>)
                   | Inr v \<Rightarrow>
                       (if obj_closed s
                        then Some (s\<lparr>scanned := scanned s @ [line], panicked := True\<rparr>)
                        else Some (s\<lparr>scanned := scanned s @ [line], lst := L_Send (profile_of v)\<rparr>)))))
      | _ \<Rightarrow> None)"

definition do_SendProfile :: "state \<Rightarrow> state option" where
  "do_SendProfile s =
     (case lst s of
        L_Send p \<Rightarrow>
          (if rel s = P_Recv \<and> \<not> obj_closed s
           then Some (s\<lparr>lst := L_Scan True, rel := P_Got (ProfilePtr p), enq := enq s @ [ProfilePtr p]\<rparr>)
           else None)
      | _ \<Rightarrow> None)"

text \<open>\<^verbatim>\<open>produce\<close>, the goroutine of lines 311 to 332: the body of the loop for the
  object received, and the end of the loop.\<close>

definition do_Deliver :: "env \<Rightarrow> string \<Rightarrow> error option \<Rightarrow> state \<Rightarrow> state option" where
  "do_Deliver env u r s =
     (case rel s of
        P_Got o1 \<Rightarrow>
          (case brand (cksum s) u o1 of
             None \<Rightarrow> Some (s\<lparr>panicked := True\<rparr>)
           | Some o2 \<Rightarrow>
               (case json_Marshal env o2 of
                  Inl err \<Rightarrow> Some (s\<lparr>rel := P_Done (Some err)\<rparr>)
                | Inr b \<Rightarrow>
                    (case topic (env_envar env) o2 of
                       None \<Rightarrow> Some (s\<lparr>logged := logged s @ [PrintGot (length b) b], panicked := True\<rparr>)
                     | Some t \<Rightarrow>
                         (case r of
                            Some err \<Rightarrow>
                              Some (s\<lparr>logged := logged s @ [PrintGot (length b) b],
                                      rel := P_Done (Some err)\<rparr>)
                          | None \<Rightarrow>
                              Some (s\<lparr>logged := logged s @ [PrintGot (length b) b],
                                      sent := sent s @ [(o2, \<lparr>Topic = t, Value = b\<rparr>)],
                                      rel := P_Recv\<rparr>)))))
      | _ \<Rightarrow> None)"

definition do_RangeEnd :: "state \<Rightarrow> state option" where
  "do_RangeEnd s =
     (if rel s = P_Recv \<and> obj_closed s then Some (s\<lparr>rel := P_Done None\<rparr>) else None)"

text \<open>\<^verbatim>\<open>logs\<close>, the goroutine of lines 205 to 215.\<close>

definition do_LogsAccept :: "error option \<Rightarrow> state \<Rightarrow> state option" where
  "do_LogsAccept r s =
     (case lgs s of
        G_Accept \<Rightarrow>
          (case r of
             Some err \<Rightarrow> Some (s\<lparr>lgs := G_AcceptErr err\<rparr>)
           | None \<Rightarrow>
               Some (s\<lparr>lgs := G_Read True, logged := logged s @ [Print ''logs connection accepted'']\<rparr>))
      | _ \<Rightarrow> None)"

definition do_LogsRead :: "string \<Rightarrow> error option \<Rightarrow> state \<Rightarrow> state option" where
  "do_LogsRead b r s =
     (case lgs s of
        G_Read conn \<Rightarrow>
          (if \<not> conn
           then Some (s\<lparr>logged := logged s @ [Print ''logs connection accepted''], panicked := True\<rparr>)
           else Some (s\<lparr>lgs := G_Done r, logged := logged s @ [Tee b]\<rparr>))
      | _ \<Rightarrow> None)"

text \<open>The close handles, lines 217 to 223, 257 to 264 and 334 to 341. A goroutine whose
  accept failed goes on after its \<^verbatim>\<open>done <- err\<close>, with the nil connection.\<close>

definition do_Lc :: "state \<Rightarrow> state option" where
  "do_Lc s =
     (if mainpc s = M_Lc
      then (case lgs s of
              G_Done err \<Rightarrow>
                Some (s\<lparr>mainpc := M_Wrelay, lgs := G_End,
                        logged := logged s @ report err @ [Print ''closing logs socket'']\<rparr>)
            | G_AcceptErr err \<Rightarrow>
                Some (s\<lparr>mainpc := M_Wrelay, lgs := G_Read False,
                        logged := logged s @ report (Some err) @ [Print ''closing logs socket'']\<rparr>)
            | _ \<Rightarrow> None)
      else None)"

definition do_Wrelay :: "state \<Rightarrow> state option" where
  "do_Wrelay s =
     (if mainpc s = M_Wrelay
      then (case lst s of
              L_Done err \<Rightarrow>
                Some (s\<lparr>mainpc := M_Wprod, lst := L_End,
                        logged := logged s @ report err @ [Print ''closing data socket'']\<rparr>)
            | L_AcceptErr err \<Rightarrow>
                Some (s\<lparr>mainpc := M_Wprod, lst := L_Scan False,
                        logged := logged s @ report (Some err) @ [Print ''closing data socket'']\<rparr>)
            | _ \<Rightarrow> None)
      else None)"

definition do_Wprod :: "state \<Rightarrow> state option" where
  "do_Wprod s =
     (if mainpc s = M_Wprod
      then (case rel s of
              P_Done err \<Rightarrow>
                Some (s\<lparr>mainpc := M_Exit, rel := P_End,
                        logged := logged s @ report err @ [Print ''closing kafka producer'']\<rparr>)
            | _ \<Rightarrow> None)
      else None)"

fun act :: "env \<Rightarrow> action \<Rightarrow> state \<Rightarrow> state option" where
  "act env (Wait ps smp) s = do_Wait ps smp s"
| "act env SendEvent s = do_SendEvent s"
| "act env RunDone s = do_RunDone s"
| "act env (Interrupt sg) s = do_Interrupt sg s"
| "act env Close s = do_Close s"
| "act env (DataAccept r) s = do_DataAccept r s"
| "act env (Scan r) s = do_Scan env r s"
| "act env SendProfile s = do_SendProfile s"
| "act env (Deliver u r) s = do_Deliver env u r s"
| "act env RangeEnd s = do_RangeEnd s"
| "act env (LogsAccept r) s = do_LogsAccept r s"
| "act env (LogsRead b r) s = do_LogsRead b r s"
| "act env Lc s = do_Lc s"
| "act env Wrelay s = do_Wrelay s"
| "act env Wprod s = do_Wprod s"

text \<open>A step is possible while no goroutine has panicked and \<^verbatim>\<open>main\<close> has not returned:
  either ends the process.\<close>

definition step :: "env \<Rightarrow> action \<Rightarrow> state \<Rightarrow> state option" where
  "step env a s = (if panicked s \<or> mainpc s = M_Exit then None else act env a s)"

fun exec :: "env \<Rightarrow> state \<Rightarrow> action list \<Rightarrow> state option" where
  "exec env s [] = Some s"
| "exec env s (a # as) = (case step env a s of None \<Rightarrow> None | Some s' \<Rightarrow> exec env s' as)"

text \<open>
  The state in which \<^verbatim>\<open>main\<close> enters the loop of \<^verbatim>\<open>run\<close>, with \<^verbatim>\<open>cksum\<close> assigned and
  \<open>lg\<close> logged before: \<^verbatim>\<open>produce\<close>, \<^verbatim>\<open>relay\<close> and \<^verbatim>\<open>logs\<close> have started their goroutines,
  the child is started, \<^verbatim>\<open>run\<close> has started its goroutine. (When one of these start-up
  calls fails, \<^verbatim>\<open>main\<close> panics and no child is supervised.)
\<close>

definition init :: "string \<Rightarrow> log_entry list \<Rightarrow> state" where
  "init ck lg =
     \<lparr>cksum = ck, mainpc = M_Run, sup = W_Wait, lst = L_Accept, rel = P_Recv, lgs = G_Accept,
      obj_closed = False, panicked = False, child = None, child_signals = [], enq = [],
      sent = [], scanned = [],
      logged = lg @ [Print ''kafka producer connected'', Print ''data socket opened'',
                     Print ''logs socket opened'', Print ''starting child'']\<rparr>"

section \<open>Histories of a run and what stays true in it\<close>



definition inv_lst_end :: "state \<Rightarrow> bool" where
  "inv_lst_end s \<longleftrightarrow> (lst s = L_End \<or> lst s = L_Scan False \<longleftrightarrow> mainpc s = M_Wprod \<or> mainpc s = M_Exit)"




definition events :: "state \<Rightarrow> Object list" where
  "events s = filter is_event (enq s)"

definition profiles :: "state \<Rightarrow> Object list" where
  "profiles s = filter is_profile (enq s)"


definition inv_ck :: "string \<Rightarrow> state \<Rightarrow> bool" where
  "inv_ck ck s \<longleftrightarrow> cksum s = ck \<and> (\<forall>x\<in>set (sent s). obj_CheckSum (fst x) = Some ck)"

definition delivers :: "env \<Rightarrow> string \<Rightarrow> Object \<Rightarrow> Object \<times> ProducerMessage \<Rightarrow> bool" where
  "delivers env ck o1 x \<longleftrightarrow>
     (\<exists>u. brand ck u o1 = Some (fst x)) \<and>
     json_Marshal env (fst x) = Inr (Value (snd x)) \<and>
     topic (env_envar env) (fst x) = Some (Topic (snd x))"

definition decodes :: "env \<Rightarrow> string \<Rightarrow> Object \<Rightarrow> bool" where
  "decodes env l o1 \<longleftrightarrow>
     (case json_Unmarshal env l of Inl e \<Rightarrow> False | Inr v \<Rightarrow> o1 = ProfilePtr (profile_of v))"

definition inv_rel :: "env \<Rightarrow> state \<Rightarrow> bool" where
  "inv_rel env s \<longleftrightarrow>
     list_all2 (delivers env (cksum s)) (take (length (sent s)) (enq s)) (sent s) \<and>
     (rel s = P_Recv \<or> rel s = P_Done None \<longrightarrow> length (sent s) = length (enq s)) \<and>
     (\<forall>o1. rel s = P_Got o1 \<longrightarrow>
        enq s \<noteq> [] \<and> last (enq s) = o1 \<and> length (enq s) = Suc (length (sent s))) \<and>
     (\<forall>e. rel s = P_Done (Some e) \<longrightarrow> length (enq s) = Suc (length (sent s))) \<and>
     length (sent s) \<le> length (enq s) \<and> length (enq s) \<le> Suc (length (sent s))"

definition inv_lst :: "env \<Rightarrow> state \<Rightarrow> bool" where
  "inv_lst env s \<longleftrightarrow>
     list_all2 (decodes env) (take (length (profiles s)) (scanned s)) (profiles s) \<and>
     (\<forall>p. lst s = L_Send p \<longrightarrow>
        scanned s \<noteq> [] \<and> length (scanned s) = Suc (length (profiles s)) \<and>
        decodes env (last (scanned s)) (ProfilePtr p)) \<and>
     (lst s = L_Accept \<or> (\<exists>e. lst s = L_AcceptErr e) \<or> lst s = L_Scan False \<longrightarrow>
        scanned s = [] \<and> profiles s = []) \<and>
     (lst s = L_Scan True \<and> \<not> panicked s \<or> lst s = L_Done None \<longrightarrow>
        length (profiles s) = length (scanned s)) \<and>
     (\<forall>e. lst s = L_Done (Some e) \<longrightarrow>
        scanned s \<noteq> [] \<and> length (scanned s) = Suc (length (profiles s)) \<and>
        json_Unmarshal env (last (scanned s)) = Inl e) \<and>
     (lst s = L_End \<longrightarrow>
        length (profiles s) = length (scanned s) \<or>
        scanned s \<noteq> [] \<and> (\<exists>e. json_Unmarshal env (last (scanned s)) = Inl e)) \<and>
     length (profiles s) \<le> length (scanned s) \<and> length (scanned s) \<le> Suc (length (profiles s))"

definition pending :: "state \<Rightarrow> Object list" where
  "pending s = (case lst s of L_Send p \<Rightarrow> [ProfilePtr p] | _ \<Rightarrow> [])"

definition valid_json :: "env \<Rightarrow> string \<Rightarrow> bool" where
  "valid_json env l \<longleftrightarrow> (case json_Unmarshal env l of Inl e \<Rightarrow> False | Inr v \<Rightarrow> True)"

definition after_decode_error :: "error \<Rightarrow> Object list \<Rightarrow> string list \<Rightarrow> state \<Rightarrow> bool" where
  "after_decode_error e ps ls t \<longleftrightarrow>
     (lst t = L_Done (Some e) \<and> mainpc t \<noteq> M_Wprod \<and> mainpc t \<noteq> M_Exit \<or>
      lst t = L_End \<and> PrintErr e \<in> set (logged t)) \<and>
     profiles t = ps \<and> scanned t = ls"

definition after_relay_error :: "error \<Rightarrow> Object list \<Rightarrow> (Object \<times> ProducerMessage) list \<Rightarrow> state \<Rightarrow> bool" where
  "after_relay_error e os ms t \<longleftrightarrow>
     (rel t = P_Done (Some e) \<and> mainpc t \<noteq> M_Exit \<or>
      rel t = P_End \<and> PrintErr e \<in> set (logged t)) \<and>
     enq t = os \<and> sent t = ms"






section \<open>Sample runs\<close>

text \<open>
  Libraries and runs on which the theorems are used: an unmarshaller that knows the JSON
  texts \<^verbatim>\<open>null\<close>, \<^verbatim>\<open>true\<close> and \<^verbatim>\<open>false\<close>, a marshaller that never fails, an authority
  that answers 404 for the digest \<^verbatim>\<open>00ff\<close>, a child that exits with status 3, and runs of
  the pipeline. \<open>shutdown_view\<close> shows where the goroutines stand and how many objects were
  enqueued and delivered, \<open>race_view\<close> what the listener has scanned and what was
  received from the channel, \<open>hang_view\<close> the state of the child, the Events received and
  in the send of \<^verbatim>\<open>run\<close>, and where the relay and \<^verbatim>\<open>main\<close> stand.
\<close>

definition unmarshal0 :: "string \<Rightarrow> error + json" where
  "unmarshal0 l =
     (if l = ''null'' then Inr JNull
      else if l = ''true'' then Inr (JBool True)
      else if l = ''false'' then Inr (JBool False)
      else Inl ''invalid character'')"

definition marshal0 :: "Object \<Rightarrow> error + string" where
  "marshal0 o1 =
     (case o1 of
        EventPtr None \<Rightarrow> Inr ''null''
      | EventPtr (Some e) \<Rightarrow> Inr (''event '' @ E_UUID e)
      | ProfilePtr p \<Rightarrow> Inr (''profile '' @ P_UUID p))"

definition env0 :: env where
  "env0 = \<lparr>env_envar = [''EVENT_TOPIC'' \<mapsto> ''events'', ''PROF_TOPIC'' \<mapsto> ''profiles''],
           json_Unmarshal = unmarshal0, json_Marshal = marshal0\<rparr>"

definition envar0 :: "string \<rightharpoonup> string" where
  "envar0 = [''BASE_URL'' \<mapsto> ''https://api'']"

definition get0 :: "string \<Rightarrow> error + response" where
  "get0 url =
     (if url = ''https://api/check_releases/00ff''
      then Inr \<lparr>StatusCode = 404, Status = ''404 Not Found''\<rparr>
      else Inl ''no such host'')"

definition fs0 :: "string \<Rightarrow> file_read" where
  "fs0 path = (if path = ''/bin/app'' then Contents [1, 2, 3] else OpenError ''no such file'')"

definition h0 :: "bytes \<Rightarrow> bytes" where
  "h0 f = [0, 255]"

definition ps0 :: ProcessState where
  "ps0 = \<lparr>status = \<lparr>ExitStatus = 3, Signaled = False, Signal_String = ''signal -1''\<rparr>\<rparr>"

definition smp0 :: sampling where
  "smp0 = \<lparr>cpu_Percent = Inr [0], mem_VirtualMemory = Inr 0, net_IOCounters = Inr [(0, 0)],
            time_Now = 0\<rparr>"

definition run_interleaved :: "action list" where
  "run_interleaved =
     [DataAccept None, Scan (Token ''true''), SendProfile, Deliver ''id1'' None,
      Wait ps0 smp0, SendEvent, Deliver ''id2'' None,
      Scan (Token ''null''), SendProfile, Deliver ''id3'' None]"


definition run_close_race :: "action list" where
  "run_close_race =
     [DataAccept None, Scan (Token ''true''), SendProfile, Scan (Token ''null''),
      Wait ps0 smp0, Deliver ''id1'' None, SendProfile, Scan (Token ''false''),
      Deliver ''id2'' None, SendEvent, RunDone, Close]"

definition race_view :: "state \<Rightarrow> bool \<times> lst_pc \<times> string list \<times> Object list \<times> nat" where
  "race_view s = (panicked s, lst s, scanned s, profiles s, length (events s))"

definition run_two_lines :: "action list" where
  "run_two_lines = [DataAccept None, Scan (Token ''true''), SendProfile, Deliver ''id1'' None]"

definition run_after_error :: "action list" where
  "run_after_error =
     [Wait ps0 smp0, SendEvent, Deliver ''id2'' None, RunDone, Close, RangeEnd,
      LogsAccept None, LogsRead ''hi'' None, Lc, Wrelay]"

definition run_to_event :: "action list" where
  "run_to_event =
     [DataAccept None, Scan (ScanEnd None), LogsAccept None, LogsRead ''hi'' None,
      Wait ps0 smp0, SendEvent]"


definition run_shutdown :: "action list" where
  "run_shutdown = [Close, Lc, Wrelay, Wprod]"





section \<open>The invariants hold\<close>


lemma exec_invariant:
  assumes "exec env s as = Some t" and "P s"
    and "\<And>a u v. P u \<Longrightarrow> step env a u = Some v \<Longrightarrow> P v"
  shows "P t"
  using assms(1,2)
proof (induction as arbitrary: s)
  case Nil
  then show ?case by simp
next
  case (Cons a as)
  then show ?case by (auto split: option.splits intro: assms(3))
qed

lemmas do_defs = do_Wait_def do_SendEvent_def do_RunDone_def do_Interrupt_def do_Close_def
  do_DataAccept_def do_Scan_def do_SendProfile_def do_Deliver_def do_RangeEnd_def
  do_LogsAccept_def do_LogsRead_def do_Lc_def do_Wrelay_def do_Wprod_def

lemmas pc_split = sup_pc.split lst_pc.split rel_pc.split lgs_pc.split option.split sum.split scan.split





lemma inv_lst_end_wp: "inv_lst_end s \<Longrightarrow> (case step env a s of None \<Rightarrow> True | Some t \<Rightarrow> inv_lst_end t)"
  by (cases a) (auto simp: step_def do_defs inv_lst_end_def Let_def split: pc_split)

lemma inv_lst_end_step: "inv_lst_end s \<Longrightarrow> step env a s = Some t \<Longrightarrow> inv_lst_end t"
  using inv_lst_end_wp[of s env a] by simp








lemma brand_CheckSum: "brand ck u o1 = Some o2 \<Longrightarrow> obj_CheckSum o2 = Some ck"
  by (cases "(ck, u, o1)" rule: brand.cases) auto

lemma inv_ck_wp: "inv_ck ck s \<Longrightarrow> (case step env a s of None \<Rightarrow> True | Some t \<Rightarrow> inv_ck ck t)"
  by (cases a) (auto simp: step_def do_defs inv_ck_def Let_def dest: brand_CheckSum split: pc_split)

lemma inv_ck_step: "inv_ck ck s \<Longrightarrow> step env a s = Some t \<Longrightarrow> inv_ck ck t"
  using inv_ck_wp[of ck s env a] by simp

lemma inv_rel_upd [simp]:
    "inv_rel env (s\<lparr>mainpc := x_mainpc\<rparr>) = inv_rel env s"
    "inv_rel env (s\<lparr>sup := x_sup\<rparr>) = inv_rel env s"
    "inv_rel env (s\<lparr>lst := x_lst\<rparr>) = inv_rel env s"
    "inv_rel env (s\<lparr>lgs := x_lgs\<rparr>) = inv_rel env s"
    "inv_rel env (s\<lparr>obj_closed := x_obj_closed\<rparr>) = inv_rel env s"
    "inv_rel env (s\<lparr>panicked := x_panicked\<rparr>) = inv_rel env s"
    "inv_rel env (s\<lparr>child := x_child\<rparr>) = inv_rel env s"
    "inv_rel env (s\<lparr>child_signals := x_child_signals\<rparr>) = inv_rel env s"
    "inv_rel env (s\<lparr>scanned := x_scanned\<rparr>) = inv_rel env s"
    "inv_rel env (s\<lparr>logged := x_logged\<rparr>) = inv_rel env s"
  by (simp_all add: inv_rel_def)

lemma list_all2_snoc_last:
  assumes "list_all2 P (take (length ys) xs) ys" and "xs \<noteq> []"
    and "length xs = Suc (length ys)" and "P (last xs) y"
  shows "list_all2 P xs (ys @ [y])"
proof -
  have xs: "xs = butlast xs @ [last xs]" using assms(2) by simp
  have bl: "take (length ys) xs = butlast xs"
    using assms(3) by (simp add: butlast_conv_take)
  have "list_all2 P (butlast xs @ [last xs]) (ys @ [y])"
    using assms(1,4) bl by (simp add: list_all2_appendI)
  with xs show ?thesis by simp
qed

lemma inv_rel_Deliver:
  "inv_rel env s \<Longrightarrow> (case do_Deliver env u r s of None \<Rightarrow> True | Some t \<Rightarrow> inv_rel env t)"
  unfolding do_Deliver_def
  apply (simp split: rel_pc.split option.split sum.split)
  apply (intro allI impI conjI)
  apply (simp_all add: inv_rel_def)
  apply (elim conjE)
  apply (rule list_all2_snoc_last, assumption, assumption, assumption)
  apply (auto simp: delivers_def)
  done

lemma inv_rel_SendEvent:
  "inv_rel env s \<Longrightarrow> (case do_SendEvent s of None \<Rightarrow> True | Some t \<Rightarrow> inv_rel env t)"
  unfolding do_SendEvent_def
  apply (simp split: sup_pc.split)
  apply (intro allI impI conjI)
  apply (simp_all add: inv_rel_def)
  apply auto?
  done

lemma inv_rel_SendProfile:
  "inv_rel env s \<Longrightarrow> (case do_SendProfile s of None \<Rightarrow> True | Some t \<Rightarrow> inv_rel env t)"
  unfolding do_SendProfile_def
  apply (simp split: lst_pc.split)
  apply (intro allI impI conjI)
  apply (simp_all add: inv_rel_def)
  apply auto?
  done

lemma inv_rel_RangeEnd:
  "inv_rel env s \<Longrightarrow> (case do_RangeEnd s of None \<Rightarrow> True | Some t \<Rightarrow> inv_rel env t)"
  unfolding do_RangeEnd_def
  apply simp
  apply (intro allI impI conjI)
  apply (simp_all add: inv_rel_def)
  apply auto?
  done

lemma inv_rel_Wprod:
  "inv_rel env s \<Longrightarrow> (case do_Wprod s of None \<Rightarrow> True | Some t \<Rightarrow> inv_rel env t)"
  unfolding do_Wprod_def
  apply (simp split: rel_pc.split option.split)
  apply (intro allI impI conjI)
  apply (simp_all add: inv_rel_def)
  apply auto?
  done

lemma inv_rel_wp:
  assumes I: "inv_rel env s"
  shows "case step env a s of None \<Rightarrow> True | Some t \<Rightarrow> inv_rel env t"
proof (cases a)
  case (Deliver u r)
  then show ?thesis using inv_rel_Deliver[OF I, of u r] by (simp add: step_def)
next
  case SendEvent
  then show ?thesis using inv_rel_SendEvent[OF I] by (simp add: step_def)
next
  case SendProfile
  then show ?thesis using inv_rel_SendProfile[OF I] by (simp add: step_def)
next
  case RangeEnd
  then show ?thesis using inv_rel_RangeEnd[OF I] by (simp add: step_def)
next
  case Wprod
  then show ?thesis using inv_rel_Wprod[OF I] by (simp add: step_def)
qed (use I in \<open>simp_all add: step_def do_Wait_def do_RunDone_def do_Interrupt_def do_Close_def
      do_DataAccept_def do_Scan_def do_LogsAccept_def do_LogsRead_def do_Lc_def do_Wrelay_def
      Let_def split: pc_split\<close>)

lemma inv_rel_step: "inv_rel env s \<Longrightarrow> step env a s = Some t \<Longrightarrow> inv_rel env t"
  using inv_rel_wp[of env s a] by simp

lemma inv_lst_upd [simp]:
    "inv_lst env (s\<lparr>cksum := x_cksum\<rparr>) = inv_lst env s"
    "inv_lst env (s\<lparr>mainpc := x_mainpc\<rparr>) = inv_lst env s"
    "inv_lst env (s\<lparr>sup := x_sup\<rparr>) = inv_lst env s"
    "inv_lst env (s\<lparr>rel := x_rel\<rparr>) = inv_lst env s"
    "inv_lst env (s\<lparr>lgs := x_lgs\<rparr>) = inv_lst env s"
    "inv_lst env (s\<lparr>obj_closed := x_obj_closed\<rparr>) = inv_lst env s"
    "inv_lst env (s\<lparr>child := x_child\<rparr>) = inv_lst env s"
    "inv_lst env (s\<lparr>child_signals := x_child_signals\<rparr>) = inv_lst env s"
    "inv_lst env (s\<lparr>sent := x_sent\<rparr>) = inv_lst env s"
    "inv_lst env (s\<lparr>logged := x_logged\<rparr>) = inv_lst env s"
  by (simp_all add: inv_lst_def profiles_def)

lemma inv_lst_panicked [simp]:
  "inv_lst env s \<Longrightarrow> \<not> panicked s \<Longrightarrow> inv_lst env (s\<lparr>panicked := b\<rparr>)"
  by (cases b) (simp_all add: inv_lst_def profiles_def)

lemma inv_lst_Scan:
  "inv_lst env s \<Longrightarrow> \<not> panicked s \<Longrightarrow>
   (case do_Scan env r s of None \<Rightarrow> True | Some t \<Rightarrow> inv_lst env t)"
  unfolding do_Scan_def
  apply (simp split: lst_pc.split scan.split sum.split)
  apply (intro allI impI conjI)
  apply (simp_all add: inv_lst_def profiles_def decodes_def)
  apply auto?
  done

lemma inv_lst_SendProfile:
  "inv_lst env s \<Longrightarrow> (case do_SendProfile s of None \<Rightarrow> True | Some t \<Rightarrow> inv_lst env t)"
  unfolding do_SendProfile_def
  apply (simp split: lst_pc.split)
  apply (intro allI impI conjI)
  apply (simp_all add: inv_lst_def profiles_def)
  apply (elim conjE)
  apply (rule list_all2_snoc_last, assumption, assumption, assumption, assumption)
  done

lemma inv_lst_SendEvent:
  "inv_lst env s \<Longrightarrow> (case do_SendEvent s of None \<Rightarrow> True | Some t \<Rightarrow> inv_lst env t)"
  unfolding do_SendEvent_def
  apply (simp split: sup_pc.split)
  apply (intro allI impI conjI)
  apply (simp_all add: inv_lst_def profiles_def)
  apply auto?
  done

lemma inv_lst_DataAccept:
  "inv_lst env s \<Longrightarrow> (case do_DataAccept r s of None \<Rightarrow> True | Some t \<Rightarrow> inv_lst env t)"
  unfolding do_DataAccept_def
  apply (simp split: lst_pc.split option.split)
  apply (intro allI impI conjI)
  apply (simp_all add: inv_lst_def profiles_def)
  apply auto?
  done

lemma inv_lst_Wrelay:
  "inv_lst env s \<Longrightarrow> (case do_Wrelay s of None \<Rightarrow> True | Some t \<Rightarrow> inv_lst env t)"
  unfolding do_Wrelay_def
  apply (simp split: lst_pc.split option.split)
  apply (intro allI impI conjI)
  apply (simp_all add: inv_lst_def profiles_def)
  apply auto?
  done

lemma inv_lst_wp:
  assumes I: "inv_lst env s"
  shows "case step env a s of None \<Rightarrow> True | Some t \<Rightarrow> inv_lst env t"
proof (cases a)
  case (Scan r)
  then show ?thesis using inv_lst_Scan[OF I, of r] by (simp add: step_def)
next
  case SendEvent
  then show ?thesis using inv_lst_SendEvent[OF I] by (simp add: step_def)
next
  case SendProfile
  then show ?thesis using inv_lst_SendProfile[OF I] by (simp add: step_def)
next
  case (DataAccept r)
  then show ?thesis using inv_lst_DataAccept[OF I, of r] by (simp add: step_def)
next
  case Wrelay
  then show ?thesis using inv_lst_Wrelay[OF I] by (simp add: step_def)
qed (use I in \<open>simp_all add: step_def do_Wait_def do_RunDone_def do_Interrupt_def do_Close_def
      do_Deliver_def do_RangeEnd_def do_LogsAccept_def do_LogsRead_def do_Lc_def do_Wprod_def
      Let_def split: pc_split\<close>)

lemma inv_lst_step: "inv_lst env s \<Longrightarrow> step env a s = Some t \<Longrightarrow> inv_lst env t"
  using inv_lst_wp[of env s a] by simp



lemma inv_lst_end_init: "inv_lst_end (init ck lg)" by (simp add: inv_lst_end_def init_def)




lemma inv_ck_init: "inv_ck ck (init ck lg)" by (simp add: inv_ck_def init_def)

lemma inv_rel_init: "inv_rel env (init ck lg)" by (simp add: inv_rel_def init_def)

lemma inv_lst_init: "inv_lst env (init ck lg)" by (simp add: inv_lst_def init_def profiles_def)



lemma reach_lst_end: "exec env (init ck lg) as = Some s \<Longrightarrow> inv_lst_end s"
  by (erule exec_invariant[where P = inv_lst_end]) (auto intro: inv_lst_end_init inv_lst_end_step)




lemma reach_ck: "exec env (init ck lg) as = Some s \<Longrightarrow> inv_ck ck s"
  by (erule exec_invariant[where P = "inv_ck ck"]) (auto intro: inv_ck_init inv_ck_step)

lemma reach_rel: "exec env (init ck lg) as = Some s \<Longrightarrow> inv_rel env s"
  by (erule exec_invariant[where P = "inv_rel env"]) (auto intro: inv_rel_init inv_rel_step)

lemma reach_lst: "exec env (init ck lg) as = Some s \<Longrightarrow> inv_lst env s"
  by (erule exec_invariant[where P = "inv_lst env"]) (auto intro: inv_lst_init inv_lst_step)

lemmas run_defs = step_def do_defs init_def event_def Sys_def index0_def profile_of_def report_def
  sender_blocked_def envar_get_def SIGINT_def env0_def unmarshal0_def marshal0_def ps0_def smp0_def

lemma last_invalid:
  "xs \<noteq> [] \<Longrightarrow> json_Unmarshal env (last xs) = Inl e \<Longrightarrow> \<forall>l\<in>set xs. valid_json env l \<Longrightarrow> False"
proof -
  assume ne: "xs \<noteq> []" and inv: "json_Unmarshal env (last xs) = Inl e"
    and v: "\<forall>l\<in>set xs. valid_json env l"
  from ne have "last xs \<in> set xs" by simp
  with v have "valid_json env (last xs)" by blast
  with inv show False by (simp add: valid_json_def)
qed

lemma after_decode_error_wp:
  "after_decode_error e ps ls s \<Longrightarrow>
   (case step env a s of None \<Rightarrow> True | Some t \<Rightarrow> after_decode_error e ps ls t)"
  by (cases a) (auto simp: step_def do_defs after_decode_error_def profiles_def report_def Let_def
      split: pc_split)

lemma after_decode_error_step:
  "after_decode_error e ps ls s \<Longrightarrow> step env a s = Some t \<Longrightarrow> after_decode_error e ps ls t"
  using after_decode_error_wp[of e ps ls s env a] by simp

lemma after_relay_error_wp:
  "after_relay_error e os ms s \<Longrightarrow>
   (case step env a s of None \<Rightarrow> True | Some t \<Rightarrow> after_relay_error e os ms t)"
  by (cases a) (auto simp: step_def do_defs after_relay_error_def report_def Let_def
      split: pc_split)

lemma after_relay_error_step:
  "after_relay_error e os ms s \<Longrightarrow> step env a s = Some t \<Longrightarrow> after_relay_error e os ms t"
  using after_relay_error_wp[of e os ms s env a] by simp

lemma brand_topic: "brand ck u o1 = Some o2 \<Longrightarrow> \<exists>t. topic envar o2 = Some t"
  by (cases "(ck, u, o1)" rule: brand.cases) auto













section \<open>Properties of the wrapper\<close>

text \<open>
  C1. The objects delivered to the broker are the objects received from the channel, in
  the order of their receipt, whichever goroutine sent each: in every state a run reaches,
  the k-th message delivered is the k-th object received, branded with the digest and a
  UUID, marshalled, on the topic of its kind. The relay holds at most one object that is
  not delivered, and it is at its receive only when every object received is delivered:
  one send at a time, none before the one before it has returned.
\<close>

theorem relay_order:
  assumes "exec env (init ck lg) as = Some s"
  shows "list_all2 (delivers env ck) (take (length (sent s)) (enq s)) (sent s) \<and>
         length (sent s) \<le> length (enq s) \<and> length (enq s) \<le> Suc (length (sent s)) \<and>
         (rel s = P_Recv \<longrightarrow> length (sent s) = length (enq s)) \<and>
         (\<forall>o1. rel s = P_Got o1 \<longrightarrow> length (enq s) = Suc (length (sent s)) \<and> last (enq s) = o1)"
  using reach_rel[OF assms] reach_ck[OF assms]
  by (simp add: inv_rel_def inv_ck_def)

theorem relay_order_witness:
  "\<exists>s. exec env0 (init ''c0ffee'' []) run_interleaved = Some s \<and>
       map is_event (enq s) = [False, True, False] \<and>
       length (sent s) = length (enq s) \<and>
       list_all2 (delivers env0 ''c0ffee'') (take (length (sent s)) (enq s)) (sent s)"
proof -
  have "\<exists>s. exec env0 (init ''c0ffee'' []) run_interleaved = Some s \<and>
         map is_event (enq s) = [False, True, False] \<and> length (sent s) = length (enq s)"
    by (simp add: run_interleaved_def run_defs)
  then obtain s where s: "exec env0 (init ''c0ffee'' []) run_interleaved = Some s"
    and l: "map is_event (enq s) = [False, True, False]" "length (sent s) = length (enq s)"
    by (elim exE conjE)
  from relay_order[OF s]
  have w: "list_all2 (delivers env0 ''c0ffee'') (take (length (sent s)) (enq s)) (sent s)"
    by (rule conjunct1)
  show ?thesis
    by (intro exI[of _ s] conjI) (rule s l w)+
qed




text \<open>
  C3. The listener is to enqueue one Profile for every valid line it receives. The wrapper
  does not always do so: \<^verbatim>\<open>main\<close> closes the channel as soon as \<^verbatim>\<open>run\<close> has returned, before
  it waits for the listener, and a listener that has a Profile left to send then panics
  on the closed channel. In the run below the child writes three valid lines and
  terminates; the relay receives the first two Profiles, then the Event, while the
  listener is blocked in the send of the third Profile; \<^verbatim>\<open>run\<close> returns, \<^verbatim>\<open>main\<close> closes
  the channel, and the listener panics: three lines were scanned and two Profiles were
  enqueued.
\<close>

theorem listener_send_after_close:
  "map_option race_view (exec env0 (init ''c0ffee'' []) run_close_race)
     = Some (True, L_Send (profile_of (JBool False)), [''true'', ''null'', ''false''],
             [ProfilePtr (profile_of (JBool True)), ProfilePtr (profile_of JNull)], 1)"
  by (simp add: run_close_race_def race_view_def profiles_def events_def run_defs)

text \<open>
  What the listener does up to such a panic: in every state a run reaches, the Profiles
  received from the channel are, position by position, made from the tokens scanned, with
  the value \<^verbatim>\<open>json.Unmarshal\<close> decoded as payload and nothing else set, and at most the last
  token scanned has no Profile among them. When every token scanned is valid JSON and no
  goroutine has panicked, the tokens scanned are matched one to one, in order, by the
  Profiles received, followed by the Profile of the last token while the listener is
  still in its send.
\<close>

lemma profiles_match_lines:
  assumes "exec env (init ck lg) as = Some s"
  shows "list_all2 (decodes env) (take (length (profiles s)) (scanned s)) (profiles s) \<and>
         length (profiles s) \<le> length (scanned s) \<and>
         length (scanned s) \<le> Suc (length (profiles s)) \<and>
         ((\<forall>l\<in>set (scanned s). valid_json env l) \<and> \<not> panicked s \<longrightarrow>
            list_all2 (decodes env) (scanned s) (profiles s @ pending s))"
proof -
  note I = reach_lst[OF assms, unfolded inv_lst_def]
  have pre: "list_all2 (decodes env) (take (length (profiles s)) (scanned s)) (profiles s)"
    using I by simp
  have "list_all2 (decodes env) (scanned s) (profiles s @ pending s)"
    if v: "\<forall>l\<in>set (scanned s). valid_json env l" and np: "\<not> panicked s"
  proof (cases "lst s")
    case L_Accept
    then show ?thesis using I by (simp add: pending_def)
  next
    case (L_AcceptErr e)
    then show ?thesis using I by (simp add: pending_def)
  next
    case (L_Scan c)
    then show ?thesis using I np pre by (cases c) (simp_all add: pending_def)
  next
    case (L_Send p)
    then have "scanned s \<noteq> []" "length (scanned s) = Suc (length (profiles s))"
      "decodes env (last (scanned s)) (ProfilePtr p)"
      using I by simp_all
    from list_all2_snoc_last[OF pre this] L_Send show ?thesis by (simp add: pending_def)
  next
    case (L_Done r)
    show ?thesis
    proof (cases r)
      case None
      then show ?thesis using I L_Done pre by (simp add: pending_def)
    next
      case (Some e)
      then have "scanned s \<noteq> []" "json_Unmarshal env (last (scanned s)) = Inl e"
        using I L_Done by simp_all
      from last_invalid[OF this v] show ?thesis ..
    qed
  next
    case L_End
    then have "length (profiles s) = length (scanned s) \<or>
        scanned s \<noteq> [] \<and> (\<exists>e. json_Unmarshal env (last (scanned s)) = Inl e)"
      using I by simp
    then show ?thesis
    proof
      assume "length (profiles s) = length (scanned s)"
      then show ?thesis using L_End pre by (simp add: pending_def)
    next
      assume "scanned s \<noteq> [] \<and> (\<exists>e. json_Unmarshal env (last (scanned s)) = Inl e)"
      then obtain e where "scanned s \<noteq> []" "json_Unmarshal env (last (scanned s)) = Inl e"
        by (elim conjE exE)
      from last_invalid[OF this v] show ?thesis ..
    qed
  qed
  then show ?thesis using I pre by simp
qed




text \<open>
  C5. Every object delivered carries the digest computed at start-up: when \<^verbatim>\<open>main\<close> has
  computed the digest \<open>ck\<close> of the executable and goes on, then in every state the run
  reaches the global \<^verbatim>\<open>cksum\<close> is still \<open>ck\<close> and the checksum field of every object
  delivered is \<open>ck\<close>.
\<close>

theorem checksum_constant:
  assumes "main_check fs h envar get path = Inr (ck, lg)"
    and "exec env (init ck lg) as = Some s"
  shows "checksum fs h path = Inr ck \<and> cksum s = ck \<and>
         (\<forall>x\<in>set (sent s). obj_CheckSum (fst x) = Some ck)"
proof -
  have "checksum fs h path = Inr ck"
    using assms(1) by (auto simp: main_check_def split: sum.splits)
  then show ?thesis using reach_ck[OF assms(2)] by (simp add: inv_ck_def)
qed

theorem checksum_constant_witness:
  "main_check fs0 h0 envar0 get0 ''/bin/app'' = Inr (''00ff'', [Print ''invalid checksum: 00ff'']) \<and>
   (\<exists>s. exec env0 (init ''00ff'' [Print ''invalid checksum: 00ff'']) run_interleaved = Some s \<and>
        length (sent s) = 3 \<and> cksum s = ''00ff'' \<and>
        (\<forall>x\<in>set (sent s). obj_CheckSum (fst x) = Some ''00ff''))"
proof -
  have m: "main_check fs0 h0 envar0 get0 ''/bin/app'' = Inr (''00ff'', [Print ''invalid checksum: 00ff''])"
    by (simp add: main_check_def checksum_def valid_def fs0_def h0_def get0_def hex_byte_def
        hex_digit_def envar_get_def envar0_def)
  have "\<exists>s. exec env0 (init ''00ff'' [Print ''invalid checksum: 00ff'']) run_interleaved = Some s \<and>
        length (sent s) = 3"
    by (simp add: run_interleaved_def run_defs)
  then obtain s where s: "exec env0 (init ''00ff'' [Print ''invalid checksum: 00ff'']) run_interleaved = Some s"
    and l: "length (sent s) = 3"
    by (elim exE conjE)
  from checksum_constant[OF m s]
  have w: "cksum s = ''00ff''" "\<forall>x\<in>set (sent s). obj_CheckSum (fst x) = Some ''00ff''"
    by simp_all
  have "\<exists>s. exec env0 (init ''00ff'' [Print ''invalid checksum: 00ff'']) run_interleaved = Some s \<and>
        length (sent s) = 3 \<and> cksum s = ''00ff'' \<and>
        (\<forall>x\<in>set (sent s). obj_CheckSum (fst x) = Some ''00ff'')"
    by (intro exI[of _ s] conjI) (rule s l w)+
  with m show ?thesis by (intro conjI)
qed

text \<open>
  C6. A line that fails to decode stops the listener and nothing else: the step of the
  failed \<^verbatim>\<open>json.Unmarshal\<close> changes only the listener, which from then on holds the error
  for its close handle (no panic, every other goroutine where it was, the objects enqueued
  untouched). In every state the run reaches afterwards no further token has been scanned,
  the Profiles enqueued are those enqueued before the line, the listener still holds the
  error or has ended, and once its close handle has returned the error is in the log.
\<close>

theorem decode_error_stops_listener:
  assumes "exec env (init ck lg) as = Some s" and "lst s = L_Scan True"
    and "json_Unmarshal env l = Inl e"
    and "step env (Scan (Token l)) s = Some s1" and "exec env s1 bs = Some s2"
  shows "s1 = s\<lparr>scanned := scanned s @ [l], lst := L_Done (Some e)\<rparr> \<and>
         profiles s2 = profiles s \<and> scanned s2 = scanned s @ [l] \<and>
         (lst s2 = L_Done (Some e) \<or> lst s2 = L_End) \<and>
         (mainpc s2 = M_Wprod \<or> mainpc s2 = M_Exit \<longrightarrow> PrintErr e \<in> set (logged s2))"
proof -
  have m: "mainpc s \<noteq> M_Wprod \<and> mainpc s \<noteq> M_Exit"
    using reach_lst_end[OF assms(1)] assms(2) by (auto simp: inv_lst_end_def)
  have s1: "s1 = s\<lparr>scanned := scanned s @ [l], lst := L_Done (Some e)\<rparr>"
    using assms(2,3,4) by (simp add: step_def do_Scan_def split: if_splits)
  have "after_decode_error e (profiles s) (scanned s @ [l]) s1"
    using m by (simp add: s1 after_decode_error_def profiles_def)
  from exec_invariant[OF assms(5), where P = "after_decode_error e (profiles s) (scanned s @ [l])", OF this]
  have "after_decode_error e (profiles s) (scanned s @ [l]) s2"
    by (auto intro: after_decode_error_step)
  then show ?thesis using s1 by (auto simp: after_decode_error_def)
qed

theorem decode_error_stops_listener_witness:
  "\<exists>s s1 s2. exec env0 (init ''c0ffee'' []) run_two_lines = Some s \<and> lst s = L_Scan True \<and>
       json_Unmarshal env0 ''{oops'' = Inl ''invalid character'' \<and>
       step env0 (Scan (Token ''{oops'')) s = Some s1 \<and> exec env0 s1 run_after_error = Some s2 \<and>
       mainpc s2 = M_Wprod \<and> length (sent s2) = 2 \<and>
       profiles s2 = profiles s \<and> PrintErr ''invalid character'' \<in> set (logged s2)"
proof -
  have u: "json_Unmarshal env0 ''{oops'' = Inl ''invalid character''"
    by (simp add: env0_def unmarshal0_def)
  have "\<exists>s s1 s2. exec env0 (init ''c0ffee'' []) run_two_lines = Some s \<and> lst s = L_Scan True \<and>
       step env0 (Scan (Token ''{oops'')) s = Some s1 \<and> exec env0 s1 run_after_error = Some s2 \<and>
       mainpc s2 = M_Wprod \<and> length (sent s2) = 2"
    by (simp add: run_two_lines_def run_after_error_def run_defs)
  then obtain s s1 s2 where s: "exec env0 (init ''c0ffee'' []) run_two_lines = Some s"
    and l: "lst s = L_Scan True" "step env0 (Scan (Token ''{oops'')) s = Some s1"
      "exec env0 s1 run_after_error = Some s2" "mainpc s2 = M_Wprod" "length (sent s2) = 2"
    by (elim exE conjE)
  from decode_error_stops_listener[OF s l(1) u l(2) l(3)] l(4)
  have w: "profiles s2 = profiles s" "PrintErr ''invalid character'' \<in> set (logged s2)"
    by simp_all
  show ?thesis
    by (intro exI[of _ s] exI[of _ s1] exI[of _ s2] conjI) (rule s l u w)+
qed

text \<open>
  C7. A failed \<^verbatim>\<open>json.Marshal\<close> or \<^verbatim>\<open>SendMessage\<close> stops the relay: the step leaves the
  relay holding the error for its close handle, with nothing delivered for the object and
  nothing panicked. In every state the run reaches afterwards no further object has been
  received from the channel (a goroutine that sends on it from then on stays in its
  send), the messages delivered are exactly those delivered before the
  failure (none sent again, none taken back), the relay still holds the error or has
  ended, and once its close handle has returned the error is in the log.
\<close>

theorem relay_error_stops_relay:
  assumes "rel s = P_Got o1" and "brand (cksum s) u o1 = Some o2"
    and "json_Marshal env o2 = Inl e \<or> (\<exists>b. json_Marshal env o2 = Inr b) \<and> r = Some e"
    and "step env (Deliver u r) s = Some s1" and "exec env s1 bs = Some s2"
  shows "rel s1 = P_Done (Some e) \<and> enq s1 = enq s \<and> sent s1 = sent s \<and> \<not> panicked s1 \<and>
         enq s2 = enq s \<and> sent s2 = sent s \<and>
         (rel s2 = P_Done (Some e) \<or> rel s2 = P_End) \<and>
         (mainpc s2 = M_Exit \<longrightarrow> PrintErr e \<in> set (logged s2))"
proof -
  obtain t where t: "topic (env_envar env) o2 = Some t"
    using brand_topic[OF assms(2)] by blast
  have g: "\<not> panicked s \<and> mainpc s \<noteq> M_Exit"
    using assms(4) by (simp add: step_def split: if_splits)
  have s1: "rel s1 = P_Done (Some e) \<and> enq s1 = enq s \<and> sent s1 = sent s \<and> \<not> panicked s1 \<and>
      mainpc s1 = mainpc s"
    using assms(1,2,3,4) t g by (auto simp: step_def do_Deliver_def)
  then have "after_relay_error e (enq s) (sent s) s1"
    using g by (simp add: after_relay_error_def)
  from exec_invariant[OF assms(5), where P = "after_relay_error e (enq s) (sent s)", OF this]
  have "after_relay_error e (enq s) (sent s) s2"
    by (auto intro: after_relay_error_step)
  then show ?thesis using s1 by (auto simp: after_relay_error_def)
qed

theorem relay_error_stops_relay_witness:
  "\<exists>s s1 s2 o1 o2. exec env0 (init ''c0ffee'' []) run_to_event = Some s \<and>
       rel s = P_Got o1 \<and> brand (cksum s) ''id1'' o1 = Some o2 \<and>
       step env0 (Deliver ''id1'' (Some ''kafka: broker down'')) s = Some s1 \<and>
       exec env0 s1 (RunDone # run_shutdown) = Some s2 \<and> mainpc s2 = M_Exit \<and>
       rel s2 = P_End \<and> enq s2 = enq s \<and> sent s2 = sent s \<and>
       PrintErr ''kafka: broker down'' \<in> set (logged s2)"
proof -
  have "\<exists>s s1 s2 o1 o2. exec env0 (init ''c0ffee'' []) run_to_event = Some s \<and>
       rel s = P_Got o1 \<and> brand (cksum s) ''id1'' o1 = Some o2 \<and>
       step env0 (Deliver ''id1'' (Some ''kafka: broker down'')) s = Some s1 \<and>
       exec env0 s1 (RunDone # run_shutdown) = Some s2 \<and> mainpc s2 = M_Exit \<and> rel s2 = P_End"
    by (simp add: run_to_event_def run_shutdown_def run_defs)
  then obtain s s1 s2 o1 o2 where s: "exec env0 (init ''c0ffee'' []) run_to_event = Some s"
    and l: "rel s = P_Got o1" "brand (cksum s) ''id1'' o1 = Some o2"
      "step env0 (Deliver ''id1'' (Some ''kafka: broker down'')) s = Some s1"
      "exec env0 s1 (RunDone # run_shutdown) = Some s2" "mainpc s2 = M_Exit" "rel s2 = P_End"
    by (elim exE conjE)
  have "\<exists>b. json_Marshal env0 o2 = Inr b"
    by (simp add: env0_def marshal0_def split: Object.split option.split)
  then have f: "json_Marshal env0 o2 = Inl ''kafka: broker down'' \<or>
      (\<exists>b. json_Marshal env0 o2 = Inr b) \<and> Some ''kafka: broker down'' = Some ''kafka: broker down''"
    by simp
  from relay_error_stops_relay[OF l(1) l(2) f l(3) l(4)] l(5)
  have w: "enq s2 = enq s" "sent s2 = sent s" "PrintErr ''kafka: broker down'' \<in> set (logged s2)"
    by simp_all
  show ?thesis
    by (intro exI[of _ s] exI[of _ s1] exI[of _ s2] exI[of _ o1] exI[of _ o2] conjI)
      (rule s l w)+
qed

text \<open>
  C8. When the authority answers the lookup of a digest, \<^verbatim>\<open>valid\<close> returns true exactly
  for the status 200 and false exactly for the status 404, and panics on every other
  status; on 404 \<^verbatim>\<open>main\<close> logs the digest as invalid and goes on with the run.
\<close>

theorem valid_status:
  assumes "get (envar_get envar ''BASE_URL'' @ ''/check_releases/'' @ digest) = Inr resp"
  shows "(valid envar get digest = Inr True \<longleftrightarrow> StatusCode resp = 200) \<and>
         (valid envar get digest = Inr False \<longleftrightarrow> StatusCode resp = 404) \<and>
         (StatusCode resp \<noteq> 200 \<and> StatusCode resp \<noteq> 404 \<longrightarrow>
            valid envar get digest =
              Inl (Panic (''wrapper: valid: got unexpected status '' @ Status resp))) \<and>
         (checksum fs h path = Inr digest \<and> StatusCode resp = 404 \<longrightarrow>
            main_check fs h envar get path =
              Inr (digest, [Print (''invalid checksum: '' @ digest)]))"
  using assms by (simp add: valid_def main_check_def Let_def)

theorem valid_status_witness:
  "get0 (envar_get [''BASE_URL'' \<mapsto> ''https://api''] ''BASE_URL'' @ ''/check_releases/'' @ ''00ff'')
     = Inr \<lparr>StatusCode = 404, Status = ''404 Not Found''\<rparr> \<and>
   valid [''BASE_URL'' \<mapsto> ''https://api''] get0 ''00ff'' = Inr False \<and>
   main_check fs0 h0 [''BASE_URL'' \<mapsto> ''https://api''] get0 ''/bin/app''
     = Inr (''00ff'', [Print ''invalid checksum: 00ff''])"
proof -
  have g: "get0 (envar_get [''BASE_URL'' \<mapsto> ''https://api''] ''BASE_URL'' @ ''/check_releases/'' @ ''00ff'')
     = Inr \<lparr>StatusCode = 404, Status = ''404 Not Found''\<rparr>"
    by (simp add: get0_def envar_get_def)
  have c: "checksum fs0 h0 ''/bin/app'' = Inr ''00ff''"
    by (simp add: checksum_def fs0_def h0_def hex_byte_def hex_digit_def)
  from valid_status[where get = get0 and envar = "[''BASE_URL'' \<mapsto> ''https://api'']"
      and digest = "''00ff''" and fs = fs0 and h = h0 and path = "''/bin/app''", OF g] c g
  show ?thesis by simp
qed



text \<open>
  C10. When \<^verbatim>\<open>line.Scan()\<close> returns false because of a read error or an over-long line,
  the listener does what it does at the end of the input: the two steps give the same
  state, in which the listener holds the nil error, and its close handle then logs no
  error, only that it closes the socket.
\<close>

theorem scan_error_dropped:
  assumes "lst s = L_Scan True" and "\<not> panicked s" and "mainpc s \<noteq> M_Exit"
  shows "step env (Scan (ScanEnd (Some err))) s = step env (Scan (ScanEnd None)) s \<and>
         step env (Scan (ScanEnd (Some err))) s =
           Some (s\<lparr>lst := L_Done None, logged := logged s @ [Print ''data socket EOF'']\<rparr>) \<and>
         (\<forall>t. lst t = L_Done None \<and> mainpc t = M_Wrelay \<and> \<not> panicked t \<longrightarrow>
            step env Wrelay t =
              Some (t\<lparr>mainpc := M_Wprod, lst := L_End,
                      logged := logged t @ [Print ''closing data socket'']\<rparr>))"
  using assms by (simp add: step_def do_Scan_def do_Wrelay_def report_def)

theorem scan_error_dropped_witness:
  "\<exists>s. exec env0 (init ''c0ffee'' []) [DataAccept None] = Some s \<and>
       lst s = L_Scan True \<and> \<not> panicked s \<and> mainpc s \<noteq> M_Exit \<and>
       step env0 (Scan (ScanEnd (Some ''bufio.Scanner: token too long''))) s
         = step env0 (Scan (ScanEnd None)) s"
proof -
  have "\<exists>s. exec env0 (init ''c0ffee'' []) [DataAccept None] = Some s \<and>
       lst s = L_Scan True \<and> \<not> panicked s \<and> mainpc s \<noteq> M_Exit"
    by (simp add: run_defs)
  then obtain s where s: "exec env0 (init ''c0ffee'' []) [DataAccept None] = Some s"
    and l: "lst s = L_Scan True" "\<not> panicked s" "mainpc s \<noteq> M_Exit"
    by (elim exE conjE)
  from scan_error_dropped[OF l, of env0 "''bufio.Scanner: token too long''"]
  have w: "step env0 (Scan (ScanEnd (Some ''bufio.Scanner: token too long''))) s
         = step env0 (Scan (ScanEnd None)) s"
    by (rule conjunct1)
  show ?thesis
    by (intro exI[of _ s] conjI) (rule s l w)+
qed

end
